theory Spec2Isabelle
  imports Main "HOL-Library.Multiset"
begin

section \<open>The Linux provider of udisks: data model\<close>

text \<open>
  The development embeds \<^verbatim>\<open>src/udiskslinuxprovider.c\<close>. The provider keeps a hash
  table from sysfs paths to block objects and exports each block object on the daemon's
  object manager. Block objects are heap objects shared by the table and the object
  manager, so they live in an explicit store addressed by handles; the table and the
  object manager hold handles. Reference counts and the freeing of keys are not
  modelled: a block object stays in the store after it has been dropped.
\<close>

type_synonym handle = nat

text \<open>A \<^verbatim>\<open>GUdevDevice\<close>: the sysfs path the provider reads, and the rest of the snapshot.\<close>

record device =
  sysfs_path :: string
  properties :: "(string \<times> string) list"

text \<open>
  Modelled from the spec: \<^verbatim>\<open>UDisksLinuxBlock\<close> is declared in the absent
  \<^verbatim>\<open>udiskslinuxblock.h\<close>. As far as the provider sees it, a block object has the D-Bus
  object path it is exported under and the device snapshot it was last given.
\<close>

record block =
  object_path :: string
  blk_device :: device

text \<open>
  The calls the provider makes on its collaborators and on its hash table, in the order
  it makes them, each with the value it returned where the provider reads one.
\<close>

datatype call =
    Block_new device handle
  | Block_uevent handle string device
  | Export string handle
  | Unexport string
  | Table_insert string handle
  | Table_remove string bool
  | Warn_if_fail string

text \<open>The variable part of each line written by \<^verbatim>\<open>g_print\<close>.\<close>

datatype print_line =
    Print_entering
  | Print_uevent string string

text \<open>
  The state the provider works on: its own two fields (\<^verbatim>\<open>gudev_client\<close>, here the
  subsystems the client was created for, and \<^verbatim>\<open>sysfs_to_block\<close>), the object manager
  of its daemon (object path to exported object), the store of block objects with its
  allocation counter, and the two traces.
\<close>

record world =
  gudev_client :: "string list option"
  sysfs_to_block :: "string \<rightharpoonup> handle"
  object_manager :: "string \<rightharpoonup> handle"
  blocks :: "handle \<Rightarrow> block"
  next_block :: handle
  calls :: "call list"
  printed :: "print_line list"

section \<open>Collaborators\<close>

definition g_print :: "print_line \<Rightarrow> world \<Rightarrow> world" where
  "g_print line w = w\<lparr>printed := printed w @ [line]\<rparr>"

text \<open>
  Modelled from the spec: \<^verbatim>\<open>udisks_linux_block_new\<close> lives in \<^verbatim>\<open>udiskslinuxblock.c\<close>,
  which is absent. The spec gives it the contract \<^verbatim>\<open>construct(DeviceSnapshot) -> object_handle\<close>:
  it returns a new object built from the snapshot. The object path it gives the object
  is not known, so it is the parameter \<open>opath\<close>.
\<close>

definition udisks_linux_block_new :: "(device \<Rightarrow> string) \<Rightarrow> device \<Rightarrow> world \<Rightarrow> handle \<times> world" where
  "udisks_linux_block_new opath dev w =
     (let h = next_block w in
      (h, w\<lparr>blocks := (blocks w)(h := \<lparr>object_path = opath dev, blk_device = dev\<rparr>),
            next_block := Suc h,
            calls := calls w @ [Block_new dev h]\<rparr>))"

text \<open>
  Modelled from the spec: \<^verbatim>\<open>udisks_linux_block_uevent\<close> lives in the absent
  \<^verbatim>\<open>udiskslinuxblock.c\<close>. The spec gives it the contract
  \<^verbatim>\<open>update(object_handle, action, DeviceSnapshot)\<close> and says that it never changes the
  export path of the object, only refreshes its internal state.
\<close>

definition udisks_linux_block_uevent :: "handle \<Rightarrow> string \<Rightarrow> device \<Rightarrow> world \<Rightarrow> world" where
  "udisks_linux_block_uevent h action dev w =
     w\<lparr>blocks := (blocks w)(h := (blocks w h)\<lparr>blk_device := dev\<rparr>),
       calls := calls w @ [Block_uevent h action dev]\<rparr>"

definition g_dbus_object_get_object_path :: "world \<Rightarrow> handle \<Rightarrow> string" where
  "g_dbus_object_get_object_path w h = object_path (blocks w h)"

text \<open>
  Modelled from the spec: the object manager of the daemon is not under \<^verbatim>\<open>src/\<close>. The
  spec gives it the contract \<^verbatim>\<open>export(identity, object_handle)\<close>, \<^verbatim>\<open>unexport(identity)\<close>;
  the key is the object path, as the two calls of the source pass it: the export takes
  the object, which carries its path, and the unexport takes a path. Exporting puts the
  object under its path, replacing what was exported there; unexporting a path tells
  whether an object was exported there.
\<close>

definition g_dbus_object_manager_export :: "handle \<Rightarrow> world \<Rightarrow> world" where
  "g_dbus_object_manager_export h w =
     (let p = g_dbus_object_get_object_path w h in
      w\<lparr>object_manager := (object_manager w)(p \<mapsto> h),
        calls := calls w @ [Export p h]\<rparr>)"

definition g_dbus_object_manager_unexport :: "string \<Rightarrow> world \<Rightarrow> bool \<times> world" where
  "g_dbus_object_manager_unexport p w =
     (object_manager w p \<noteq> None,
      w\<lparr>object_manager := (object_manager w)(p := None),
        calls := calls w @ [Unexport p]\<rparr>)"

text \<open>The hash table (GLib), on the provider's \<^verbatim>\<open>sysfs_to_block\<close>.\<close>

definition g_hash_table_lookup :: "world \<Rightarrow> string \<Rightarrow> handle option" where
  "g_hash_table_lookup w key = sysfs_to_block w key"

definition g_hash_table_insert :: "string \<Rightarrow> handle \<Rightarrow> world \<Rightarrow> world" where
  "g_hash_table_insert key h w =
     w\<lparr>sysfs_to_block := (sysfs_to_block w)(key \<mapsto> h),
       calls := calls w @ [Table_insert key h]\<rparr>"

definition g_hash_table_remove :: "string \<Rightarrow> world \<Rightarrow> bool \<times> world" where
  "g_hash_table_remove key w =
     (let found = (sysfs_to_block w key \<noteq> None) in
      (found, w\<lparr>sysfs_to_block := (sysfs_to_block w)(key := None),
                calls := calls w @ [Table_remove key found]\<rparr>))"

definition g_warn_if_fail :: "bool \<Rightarrow> string \<Rightarrow> world \<Rightarrow> world" where
  "g_warn_if_fail ok expr w = (if ok then w else w\<lparr>calls := calls w @ [Warn_if_fail expr]\<rparr>)"

section \<open>The provider\<close>

definition udisks_linux_provider_handle_uevent ::
    "(device \<Rightarrow> string) \<Rightarrow> string \<Rightarrow> device \<Rightarrow> world \<Rightarrow> world" where
  "udisks_linux_provider_handle_uevent opath action dev w0 =
     (let w = g_print (Print_uevent action (sysfs_path dev)) w0;
          path = sysfs_path dev
      in if action = ''remove'' then
           (case g_hash_table_lookup w path of
              Some blk \<Rightarrow>
                (let (_, w1) = g_dbus_object_manager_unexport (g_dbus_object_get_object_path w blk) w;
                     (removed, w2) = g_hash_table_remove path w1
                 in g_warn_if_fail removed ''g_hash_table_remove (provider->sysfs_to_block, sysfs_path)'' w2)
            | None \<Rightarrow> w)
         else
           (case g_hash_table_lookup w path of
              Some blk \<Rightarrow> udisks_linux_block_uevent blk action dev w
            | None \<Rightarrow>
                (let (blk, w1) = udisks_linux_block_new opath dev w;
                     w2 = g_dbus_object_manager_export blk w1
                 in g_hash_table_insert path blk w2)))"

definition on_uevent :: "(device \<Rightarrow> string) \<Rightarrow> string \<Rightarrow> device \<Rightarrow> world \<Rightarrow> world" where
  "on_uevent opath action dev w =
     udisks_linux_provider_handle_uevent opath action dev (g_print Print_entering w)"

text \<open>
  \<^verbatim>\<open>udisks_linux_provider_constructed\<close>: the list \<open>devices\<close> is what
  \<^verbatim>\<open>g_udev_client_query_by_subsystem (client, "block")\<close> returned.
\<close>

definition udisks_linux_provider_constructed ::
    "(device \<Rightarrow> string) \<Rightarrow> device list \<Rightarrow> world \<Rightarrow> world" where
  "udisks_linux_provider_constructed opath devices w =
     foldl (\<lambda>w' dev. udisks_linux_provider_handle_uevent opath ''add'' dev w')
       (w\<lparr>gudev_client := Some [''block''], sysfs_to_block := Map.empty\<rparr>) devices"

text \<open>
  The argument of \<^verbatim>\<open>udisks_linux_provider_new\<close> is a pointer: null, or an instance of
  some type.
\<close>

datatype gtype = UDISKS_TYPE_DAEMON | G_TYPE_OTHER

datatype gpointer = Null | Instance gtype

text \<open>
  Modelled from the spec: the macro \<^verbatim>\<open>UDISKS_IS_DAEMON\<close> is declared in the absent
  \<^verbatim>\<open>udisksdaemon.h\<close>; it holds of a handle that is a valid, initialized daemon context.
\<close>

definition UDISKS_IS_DAEMON :: "gpointer \<Rightarrow> bool" where
  "UDISKS_IS_DAEMON p = (case p of Null \<Rightarrow> False | Instance t \<Rightarrow> t = UDISKS_TYPE_DAEMON)"

datatype error = Return_val_if_fail string

definition udisks_linux_provider_new ::
    "(device \<Rightarrow> string) \<Rightarrow> device list \<Rightarrow> gpointer \<Rightarrow> world \<Rightarrow> error + world" where
  "udisks_linux_provider_new opath devices daemon w =
     (if \<not> UDISKS_IS_DAEMON daemon then Inl (Return_val_if_fail ''UDISKS_IS_DAEMON (daemon)'')
      else Inr (udisks_linux_provider_constructed opath devices w))"

text \<open>The main loop delivers the events of the udev client one at a time.\<close>

definition deliver :: "(device \<Rightarrow> string) \<Rightarrow> (string \<times> device) list \<Rightarrow> world \<Rightarrow> world" where
  "deliver opath evs w = foldl (\<lambda>w' (action, dev). on_uevent opath action dev w') w evs"

section \<open>Notions the properties are stated with\<close>

text \<open>
  The identity of a block object is the sysfs path of the device snapshot it holds. The
  identities in the map are the keys of \<^verbatim>\<open>sysfs_to_block\<close>; the identities exported are
  those of the objects on the object manager.
\<close>

definition blk_identity :: "world \<Rightarrow> handle \<Rightarrow> string" where
  "blk_identity w h = sysfs_path (blk_device (blocks w h))"

definition map_ids :: "world \<Rightarrow> string set" where
  "map_ids w = dom (sysfs_to_block w)"

definition exported_ids :: "world \<Rightarrow> string set" where
  "exported_ids w = blk_identity w ` ran (object_manager w)"

text \<open>
  The spec's invariant of device identities, on the object paths that the absent
  constructor chooses: among the devices \<open>D\<close>, two devices with different sysfs paths
  never get the same object path.
\<close>

definition collision_free :: "(device \<Rightarrow> string) \<Rightarrow> device set \<Rightarrow> bool" where
  "collision_free opath D =
     (\<forall>d1\<in>D. \<forall>d2\<in>D. opath d1 = opath d2 \<longrightarrow> sysfs_path d1 = sysfs_path d2)"

text \<open>
  The map and the object manager agree: each mapped object is exported under its own
  object path, carries the identity it is mapped under and has been allocated; each
  exported object sits under its own path and is the one mapped under its identity.
\<close>

definition consistent :: "world \<Rightarrow> bool" where
  "consistent w \<longleftrightarrow>
     (\<forall>k h. sysfs_to_block w k = Some h \<longrightarrow>
        object_manager w (object_path (blocks w h)) = Some h \<and> blk_identity w h = k \<and>
        h < next_block w) \<and>
     (\<forall>p h. object_manager w p = Some h \<longrightarrow>
        object_path (blocks w h) = p \<and> sysfs_to_block w (blk_identity w h) = Some h)"

text \<open>Each mapped object got its object path from a device of \<open>D\<close> with the identity it is mapped under.\<close>

definition paths_from :: "(device \<Rightarrow> string) \<Rightarrow> device set \<Rightarrow> world \<Rightarrow> bool" where
  "paths_from opath D w \<longleftrightarrow>
     (\<forall>k h. sysfs_to_block w k = Some h \<longrightarrow>
        (\<exists>d\<in>D. sysfs_path d = k \<and> opath d = object_path (blocks w h)))"

text \<open>The calls a run added to the trace of the world \<open>w\<close> it started from.\<close>

definition new_calls :: "world \<Rightarrow> world \<Rightarrow> call list" where
  "new_calls w w' = drop (length (calls w)) (calls w')"

fun is_export :: "call \<Rightarrow> bool" where
  "is_export (Export p h) = True"
| "is_export c = False"

fun is_block_new :: "call \<Rightarrow> bool" where
  "is_block_new (Block_new d h) = True"
| "is_block_new c = False"

fun is_warning :: "call \<Rightarrow> bool" where
  "is_warning (Warn_if_fail e) = True"
| "is_warning c = False"

text \<open>
  Reading a trace from its start: the object \<open>h\<close> is inserted into the table before, and
  not after, the first time it is exported.
\<close>

fun inserted_when_exported :: "handle \<Rightarrow> call list \<Rightarrow> bool" where
  "inserted_when_exported h [] = True"
| "inserted_when_exported h (Table_insert k h' # cs) = (h' = h \<or> inserted_when_exported h cs)"
| "inserted_when_exported h (Export p h' # cs) = (h' \<noteq> h \<and> inserted_when_exported h cs)"
| "inserted_when_exported h (c # cs) = inserted_when_exported h cs"

text \<open>The three calls that create the entry of one device, with the handle it gets.\<close>

definition creation_calls :: "(device \<Rightarrow> string) \<Rightarrow> handle \<Rightarrow> device \<Rightarrow> call list" where
  "creation_calls opath h dev =
     [Block_new dev h, Export (opath dev) h, Table_insert (sysfs_path dev) h]"

text \<open>The loop of \<^verbatim>\<open>udisks_linux_provider_constructed\<close> over the enumerated devices.\<close>

definition seed :: "(device \<Rightarrow> string) \<Rightarrow> device list \<Rightarrow> world \<Rightarrow> world" where
  "seed opath devs w =
     foldl (\<lambda>w' dev. udisks_linux_provider_handle_uevent opath ''add'' dev w') w devs"


text \<open>Example inputs: a world with nothing in it, and two devices.\<close>

definition world0 :: world where
  "world0 =
     \<lparr>gudev_client = None, sysfs_to_block = Map.empty, object_manager = Map.empty,
      blocks = (\<lambda>h. \<lparr>object_path = [], blk_device = \<lparr>sysfs_path = [], properties = []\<rparr>\<rparr>),
      next_block = 0, calls = [], printed = []\<rparr>"

definition dev_sda :: device where
  "dev_sda = \<lparr>sysfs_path = ''/sys/block/sda'', properties = [(''DEVNAME'', ''/dev/sda'')]\<rparr>"

definition dev_sdb :: device where
  "dev_sdb = \<lparr>sysfs_path = ''/sys/block/sdb'', properties = [(''DEVNAME'', ''/dev/sdb'')]\<rparr>"


section \<open>What one call of the handler does\<close>

lemmas collab_defs = g_print_def udisks_linux_block_new_def udisks_linux_block_uevent_def
  g_dbus_object_get_object_path_def g_dbus_object_manager_export_def
  g_dbus_object_manager_unexport_def g_hash_table_lookup_def g_hash_table_insert_def
  g_hash_table_remove_def g_warn_if_fail_def

lemma handle_remove_absent:
  assumes "sysfs_to_block w (sysfs_path dev) = None"
  shows "udisks_linux_provider_handle_uevent opath ''remove'' dev w =
           w\<lparr>printed := printed w @ [Print_uevent ''remove'' (sysfs_path dev)]\<rparr>"
  using assms by (simp add: udisks_linux_provider_handle_uevent_def collab_defs Let_def)

lemma handle_remove_present:
  assumes "sysfs_to_block w (sysfs_path dev) = Some h"
  shows "udisks_linux_provider_handle_uevent opath ''remove'' dev w =
           w\<lparr>sysfs_to_block := (sysfs_to_block w)(sysfs_path dev := None),
             object_manager := (object_manager w)(object_path (blocks w h) := None),
             calls := calls w @ [Unexport (object_path (blocks w h)), Table_remove (sysfs_path dev) True],
             printed := printed w @ [Print_uevent ''remove'' (sysfs_path dev)]\<rparr>"
  using assms by (simp add: udisks_linux_provider_handle_uevent_def collab_defs Let_def)

lemma handle_update:
  assumes "action \<noteq> ''remove''" "sysfs_to_block w (sysfs_path dev) = Some h"
  shows "udisks_linux_provider_handle_uevent opath action dev w =
           w\<lparr>blocks := (blocks w)(h := (blocks w h)\<lparr>blk_device := dev\<rparr>),
             calls := calls w @ [Block_uevent h action dev],
             printed := printed w @ [Print_uevent action (sysfs_path dev)]\<rparr>"
  using assms by (simp add: udisks_linux_provider_handle_uevent_def collab_defs Let_def)

lemma handle_create:
  assumes "action \<noteq> ''remove''" "sysfs_to_block w (sysfs_path dev) = None"
  shows "udisks_linux_provider_handle_uevent opath action dev w =
           w\<lparr>sysfs_to_block := (sysfs_to_block w)(sysfs_path dev \<mapsto> next_block w),
             object_manager := (object_manager w)(opath dev \<mapsto> next_block w),
             blocks := (blocks w)(next_block w := \<lparr>object_path = opath dev, blk_device = dev\<rparr>),
             next_block := Suc (next_block w),
             calls := calls w @ creation_calls opath (next_block w) dev,
             printed := printed w @ [Print_uevent action (sysfs_path dev)]\<rparr>"
  using assms
  by (simp add: udisks_linux_provider_handle_uevent_def collab_defs creation_calls_def Let_def)

lemma new_calls_append [simp]: "calls w' = calls w @ cs \<Longrightarrow> new_calls w w' = cs"
  by (simp add: new_calls_def)

section \<open>The map and the object manager stay consistent\<close>

lemma consistent_ids: "consistent w \<Longrightarrow> map_ids w = exported_ids w"
  unfolding consistent_def map_ids_def exported_ids_def
  by (fastforce simp: ran_def dom_def image_iff)


lemma consistent_remove:
  assumes "consistent w"
  shows "consistent (udisks_linux_provider_handle_uevent opath ''remove'' dev w)"
proof (cases "sysfs_to_block w (sysfs_path dev)")
  case None
  then show ?thesis using assms
    by (simp add: handle_remove_absent consistent_def blk_identity_def)
next
  case (Some h)
  show ?thesis using assms Some
    unfolding handle_remove_present [OF Some] consistent_def blk_identity_def
    by (auto; metis)
qed

lemma consistent_update:
  assumes "consistent w" "action \<noteq> ''remove''" "sysfs_to_block w (sysfs_path dev) = Some h"
  shows "consistent (udisks_linux_provider_handle_uevent opath action dev w)"
  using assms(1,3) unfolding handle_update [OF assms(2,3)] consistent_def blk_identity_def
  by (auto; metis)

lemma consistent_create:
  assumes cons: "consistent w" and act: "action \<noteq> ''remove''"
    and absent: "sysfs_to_block w (sysfs_path dev) = None"
    and pf: "paths_from opath D w" and cf: "collision_free opath D" and dev: "dev \<in> D"
  shows "consistent (udisks_linux_provider_handle_uevent opath action dev w)"
proof -
  define n where "n = next_block w"
  define w' where "w' = udisks_linux_provider_handle_uevent opath action dev w"
  have tbl: "sysfs_to_block w' = (sysfs_to_block w)(sysfs_path dev \<mapsto> n)"
    and om: "object_manager w' = (object_manager w)(opath dev \<mapsto> n)"
    and blk: "blocks w' = (blocks w)(n := \<lparr>object_path = opath dev, blk_device = dev\<rparr>)"
    and nxt: "next_block w' = Suc n"
    unfolding w'_def n_def handle_create [OF act absent] by simp_all
  have old: "object_manager w (object_path (blocks w h)) = Some h \<and> blk_identity w h = k \<and> h < n"
    if "sysfs_to_block w k = Some h" for k h
    using cons that unfolding consistent_def n_def by blast
  have old_om: "object_path (blocks w h) = p \<and> sysfs_to_block w (blk_identity w h) = Some h"
    if "object_manager w p = Some h" for p h
    using cons that unfolding consistent_def by blast
  have a: "object_manager w' (object_path (blocks w' h)) = Some h \<and> blk_identity w' h = k \<and>
           h < next_block w'"
    if m: "sysfs_to_block w' k = Some h" for k h
  proof (cases "k = sysfs_path dev")
    case True
    then have "h = n" using m tbl by simp
    then show ?thesis using True by (simp add: om blk nxt blk_identity_def)
  next
    case False
    then have m0: "sysfs_to_block w k = Some h" using m tbl by simp
    from old [OF m0] have h: "h < n" and e: "object_manager w (object_path (blocks w h)) = Some h"
      and i: "blk_identity w h = k" by simp_all
    obtain d where d: "d \<in> D" "sysfs_path d = k" "opath d = object_path (blocks w h)"
      using pf m0 unfolding paths_from_def by blast
    have "opath d \<noteq> opath dev"
      using cf d(1,2) dev False unfolding collision_free_def by blast
    then show ?thesis using h e i d(3) by (simp add: om blk nxt blk_identity_def)
  qed
  have b: "object_path (blocks w' h) = p \<and> sysfs_to_block w' (blk_identity w' h) = Some h"
    if e: "object_manager w' p = Some h" for p h
  proof (cases "p = opath dev")
    case True
    then have "h = n" using e om by simp
    then show ?thesis using True by (simp add: tbl blk blk_identity_def)
  next
    case False
    then have e0: "object_manager w p = Some h" using e om by simp
    from old_om [OF e0] have p: "object_path (blocks w h) = p"
      and m0: "sysfs_to_block w (blk_identity w h) = Some h" by simp_all
    from old [OF m0] have h: "h < n" by simp
    have "blk_identity w h \<noteq> sysfs_path dev" using m0 absent by auto
    then show ?thesis using p m0 h by (simp add: tbl blk blk_identity_def)
  qed
  show ?thesis unfolding w'_def [symmetric] consistent_def using a b by blast
qed

lemma paths_from_handle:
  assumes "consistent w" "paths_from opath D w" "dev \<in> D"
  shows "paths_from opath D (udisks_linux_provider_handle_uevent opath action dev w)"
proof (cases "sysfs_to_block w (sysfs_path dev)")
  case None
  show ?thesis
  proof (cases "action = ''remove''")
    case True
    then show ?thesis using assms(2) None by (simp add: handle_remove_absent paths_from_def)
  next
    case False
    show ?thesis using assms None
      unfolding handle_create [OF False None] paths_from_def consistent_def
      by (auto; metis less_irrefl)
  qed
next
  case (Some h)
  show ?thesis
  proof (cases "action = ''remove''")
    case True
    then show ?thesis using assms(2)
      unfolding True handle_remove_present [OF Some] paths_from_def by auto
  next
    case False
    show ?thesis using assms(2)
      unfolding handle_update [OF False Some] paths_from_def by auto
  qed
qed

lemma consistent_handle:
  assumes "consistent w" "paths_from opath D w" "collision_free opath D" "dev \<in> D"
  shows "consistent (udisks_linux_provider_handle_uevent opath action dev w)"
proof (cases "action = ''remove''")
  case True
  then show ?thesis using assms(1) by (simp add: consistent_remove)
next
  case False
  then show ?thesis using assms
    by (cases "sysfs_to_block w (sysfs_path dev)")
       (auto intro: consistent_create consistent_update)
qed

lemma consistent_g_print: "consistent (g_print l w) = consistent w"
  by (simp add: consistent_def g_print_def blk_identity_def)

lemma paths_from_g_print: "paths_from opath D (g_print l w) = paths_from opath D w"
  by (simp add: paths_from_def g_print_def)

lemma inv_on_uevent:
  assumes "consistent w \<and> paths_from opath D w" "collision_free opath D" "dev \<in> D"
  shows "consistent (on_uevent opath action dev w) \<and> paths_from opath D (on_uevent opath action dev w)"
proof -
  let ?w = "g_print Print_entering w"
  have c: "consistent ?w" and p: "paths_from opath D ?w"
    using assms(1) by (simp_all add: consistent_g_print paths_from_g_print)
  show ?thesis unfolding on_uevent_def
    using consistent_handle [OF c p assms(2,3)] paths_from_handle [OF c p assms(3)] by simp
qed

lemma inv_deliver:
  assumes "collision_free opath D" "snd ` set evs \<subseteq> D" "consistent w \<and> paths_from opath D w"
  shows "consistent (deliver opath evs w) \<and> paths_from opath D (deliver opath evs w)"
  using assms(2,3)
proof (induction evs arbitrary: w)
  case Nil
  then show ?case by (simp add: deliver_def)
next
  case (Cons ev evs)
  obtain action dev where ev: "ev = (action, dev)" by (cases ev)
  have "dev \<in> D" using Cons.prems(1) ev by simp
  then have "consistent (on_uevent opath action dev w) \<and> paths_from opath D (on_uevent opath action dev w)"
    using inv_on_uevent [OF Cons.prems(2) assms(1)] by simp
  moreover have "snd ` set evs \<subseteq> D" using Cons.prems(1) by simp
  ultimately have "consistent (deliver opath evs (on_uevent opath action dev w)) \<and>
      paths_from opath D (deliver opath evs (on_uevent opath action dev w))"
    using Cons.IH by blast
  then show ?case by (simp add: deliver_def ev)
qed

lemma consistent_empty:
  assumes "sysfs_to_block w = Map.empty" "object_manager w = Map.empty"
  shows "consistent w \<and> paths_from opath D w"
  using assms by (simp add: consistent_def paths_from_def)

lemma consistent_not_exported:
  assumes "consistent w" "sysfs_to_block w k = None"
  shows "k \<notin> exported_ids w"
  using assms consistent_ids [OF assms(1)] by (auto simp: map_ids_def)

section \<open>Seeding the map at start-up\<close>

lemma seed_snoc:
  "seed opath (ds @ [d]) w = udisks_linux_provider_handle_uevent opath ''add'' d (seed opath ds w)"
  by (simp add: seed_def)

lemma collision_free_mono: "collision_free opath D \<Longrightarrow> D' \<subseteq> D \<Longrightarrow> collision_free opath D'"
  unfolding collision_free_def by blast

lemma seed_result:
  assumes "sysfs_to_block w = Map.empty" "distinct (map sysfs_path ds)"
  shows "next_block (seed opath ds w) = next_block w + length ds \<and>
         calls (seed opath ds w) =
           calls w @ concat (map (\<lambda>(h, d). creation_calls opath h d) (enumerate (next_block w) ds)) \<and>
         dom (sysfs_to_block (seed opath ds w)) = sysfs_path ` set ds \<and>
         (\<forall>i<length ds.
            sysfs_to_block (seed opath ds w) (sysfs_path (ds ! i)) = Some (next_block w + i) \<and>
            blocks (seed opath ds w) (next_block w + i) =
              \<lparr>object_path = opath (ds ! i), blk_device = ds ! i\<rparr>) \<and>
         (collision_free opath (set ds) \<longrightarrow>
            (\<forall>i<length ds. object_manager (seed opath ds w) (opath (ds ! i)) = Some (next_block w + i)))"
  using assms(2)
proof (induction ds rule: rev_induct)
  case Nil
  then show ?case using assms(1) by (simp add: seed_def)
next
  case (snoc d ds)
  let ?v = "seed opath ds w"
  let ?n = "next_block w"
  have dist: "distinct (map sysfs_path ds)" and fresh: "sysfs_path d \<notin> sysfs_path ` set ds"
    using snoc.prems by simp_all
  note ih = snoc.IH [OF dist]
  have a: "''add'' \<noteq> ''remove''" by simp
  have absent: "sysfs_to_block ?v (sysfs_path d) = None"
    using ih fresh by (metis domIff)
  note step = handle_create [OF a absent, of opath]
  have nxt: "next_block ?v = ?n + length ds" using ih by simp
  have 1: "next_block (seed opath (ds @ [d]) w) = ?n + length (ds @ [d])"
    by (simp add: seed_snoc step nxt)
  have 2: "calls (seed opath (ds @ [d]) w) =
      calls w @ concat (map (\<lambda>(h, d). creation_calls opath h d) (enumerate ?n (ds @ [d])))"
    using ih by (simp add: seed_snoc step nxt enumerate_append_eq)
  have 3: "dom (sysfs_to_block (seed opath (ds @ [d]) w)) = sysfs_path ` set (ds @ [d])"
    using ih by (simp add: seed_snoc step)
  have 4: "sysfs_to_block (seed opath (ds @ [d]) w) (sysfs_path ((ds @ [d]) ! i)) = Some (?n + i) \<and>
           blocks (seed opath (ds @ [d]) w) (?n + i) =
             \<lparr>object_path = opath ((ds @ [d]) ! i), blk_device = (ds @ [d]) ! i\<rparr>"
    if "i < length (ds @ [d])" for i
  proof (cases "i < length ds")
    case True
    then have "sysfs_path (ds ! i) \<noteq> sysfs_path d" using fresh by (metis image_eqI nth_mem)
    then show ?thesis using ih True by (simp add: seed_snoc step nxt nth_append)
  next
    case False
    then have "i = length ds" using that by simp
    then show ?thesis by (simp add: seed_snoc step nxt)
  qed
  have 5: "object_manager (seed opath (ds @ [d]) w) (opath ((ds @ [d]) ! i)) = Some (?n + i)"
    if cf: "collision_free opath (set (ds @ [d]))" and i: "i < length (ds @ [d])" for i
  proof (cases "i < length ds")
    case True
    have "collision_free opath (set ds)" using cf by (rule collision_free_mono) auto
    then have old: "object_manager ?v (opath (ds ! i)) = Some (?n + i)" using ih True by blast
    have "sysfs_path (ds ! i) \<noteq> sysfs_path d" using fresh True by (metis image_eqI nth_mem)
    moreover have "ds ! i \<in> set (ds @ [d])" "d \<in> set (ds @ [d])" using True by simp_all
    ultimately have "opath (ds ! i) \<noteq> opath d" using cf unfolding collision_free_def by blast
    then show ?thesis using old True by (simp add: seed_snoc step nxt nth_append)
  next
    case False
    then have "i = length ds" using i by simp
    then show ?thesis by (simp add: seed_snoc step nxt)
  qed
  show ?case using 1 2 3 4 5 by blast
qed

lemma constructed_seed:
  "udisks_linux_provider_constructed opath devs w =
     seed opath devs (w\<lparr>gudev_client := Some [''block''], sysfs_to_block := Map.empty\<rparr>)"
  by (simp add: udisks_linux_provider_constructed_def seed_def)

lemma creation_counts:
  "length (filter is_block_new (concat (map (\<lambda>(h, d). creation_calls opath h d) (enumerate n ds)))) = length ds \<and>
   length (filter is_export (concat (map (\<lambda>(h, d). creation_calls opath h d) (enumerate n ds)))) = length ds"
  by (induction ds arbitrary: n) (simp_all add: creation_calls_def)

section \<open>Runs without a collision of object paths, and runs with one\<close>









section \<open>Properties of the specification\<close>




text \<open>
  C2, as stated, fails: the handler exports the new object first and inserts it into the
  table afterwards. On an empty world, the first add of a device gives the trace below, in
  which the export comes while the table does not hold the object yet.
\<close>

theorem export_precedes_insert_counterexample:
  "new_calls world0 (udisks_linux_provider_handle_uevent sysfs_path ''add'' dev_sda world0) =
     [Block_new dev_sda 0, Export ''/sys/block/sda'' 0, Table_insert ''/sys/block/sda'' 0] \<and>
   \<not> inserted_when_exported 0
     (new_calls world0 (udisks_linux_provider_handle_uevent sysfs_path ''add'' dev_sda world0))"
proof -
  have a: "''add'' \<noteq> ''remove''" by simp
  have b: "sysfs_to_block world0 (sysfs_path dev_sda) = None" by (simp add: world0_def)
  show ?thesis
    by (simp add: handle_create [OF a b] creation_calls_def) (simp add: world0_def dev_sda_def)
qed

text \<open>
  C2, amended. On every event other than remove for an identity absent from the map, the
  handler constructs the object, exports it and then inserts it into the map, in this
  order and in one call; on return the identity is in the map and the object is on the
  object manager under its path.
\<close>

theorem export_then_insert:
  assumes "action \<noteq> ''remove''" "sysfs_to_block w (sysfs_path dev) = None"
  shows "let w' = udisks_linux_provider_handle_uevent opath action dev w; h = next_block w in
           new_calls w w' = [Block_new dev h, Export (opath dev) h, Table_insert (sysfs_path dev) h] \<and>
           sysfs_to_block w' = (sysfs_to_block w)(sysfs_path dev \<mapsto> h) \<and>
           object_manager w' = (object_manager w)(opath dev \<mapsto> h)"
  by (simp add: handle_create [OF assms] creation_calls_def)

theorem export_then_insert_witness:
  "''change'' \<noteq> ''remove'' \<and> sysfs_to_block world0 (sysfs_path dev_sda) = None \<and>
   (let w' = udisks_linux_provider_handle_uevent sysfs_path ''change'' dev_sda world0;
        h = next_block world0 in
      new_calls world0 w' = [Block_new dev_sda h, Export (sysfs_path dev_sda) h, Table_insert (sysfs_path dev_sda) h] \<and>
      sysfs_to_block w' = (sysfs_to_block world0)(sysfs_path dev_sda \<mapsto> h) \<and>
      object_manager w' = (object_manager world0)(sysfs_path dev_sda \<mapsto> h))"
proof -
  have a: "''change'' \<noteq> ''remove''" by simp
  have b: "sysfs_to_block world0 (sysfs_path dev_sda) = None" by (simp add: world0_def)
  from export_then_insert [OF a b] a b show ?thesis by blast
qed

text \<open>
  C3. Two adds in a row for an identity absent from the map: one construction, one export
  and one insertion by the first add, one update of that same object by the second; the
  map holds one entry for the identity, the object manager one object.
\<close>

theorem idempotent_add:
  assumes "sysfs_to_block w (sysfs_path d1) = None" "sysfs_path d2 = sysfs_path d1"
  shows "let w2 = udisks_linux_provider_handle_uevent opath ''add'' d2
                    (udisks_linux_provider_handle_uevent opath ''add'' d1 w);
             h = next_block w in
           new_calls w w2 =
             [Block_new d1 h, Export (opath d1) h, Table_insert (sysfs_path d1) h,
              Block_uevent h ''add'' d2] \<and>
           length (filter is_export (new_calls w w2)) = 1 \<and>
           length (filter is_block_new (new_calls w w2)) = 1 \<and>
           sysfs_to_block w2 = (sysfs_to_block w)(sysfs_path d1 \<mapsto> h) \<and>
           object_manager w2 = (object_manager w)(opath d1 \<mapsto> h) \<and>
           next_block w2 = Suc h"
proof -
  have a: "''add'' \<noteq> ''remove''" by simp
  let ?w1 = "udisks_linux_provider_handle_uevent opath ''add'' d1 w"
  have p: "sysfs_to_block ?w1 (sysfs_path d2) = Some (next_block w)"
    by (simp add: handle_create [OF a assms(1)] assms(2))
  show ?thesis
    unfolding Let_def handle_update [OF a p]
    by (simp add: handle_create [OF a assms(1)] creation_calls_def)
qed

theorem idempotent_add_witness:
  "sysfs_to_block world0 (sysfs_path dev_sda) = None \<and> sysfs_path dev_sda = sysfs_path dev_sda \<and>
   (let w2 = udisks_linux_provider_handle_uevent sysfs_path ''add'' dev_sda
               (udisks_linux_provider_handle_uevent sysfs_path ''add'' dev_sda world0);
        h = next_block world0 in
      new_calls world0 w2 =
        [Block_new dev_sda h, Export (sysfs_path dev_sda) h, Table_insert (sysfs_path dev_sda) h,
         Block_uevent h ''add'' dev_sda] \<and>
      length (filter is_export (new_calls world0 w2)) = 1 \<and>
      length (filter is_block_new (new_calls world0 w2)) = 1 \<and>
      sysfs_to_block w2 = (sysfs_to_block world0)(sysfs_path dev_sda \<mapsto> h) \<and>
      object_manager w2 = (object_manager world0)(sysfs_path dev_sda \<mapsto> h) \<and>
      next_block w2 = Suc h)"
proof -
  have b: "sysfs_to_block world0 (sysfs_path dev_sda) = None" by (simp add: world0_def)
  have c: "sysfs_path dev_sda = sysfs_path dev_sda" by simp
  from idempotent_add [OF b c] b show ?thesis by blast
qed

text \<open>
  C4. A remove for an identity present in the map first unexports the object path of its
  object, then removes the entry from the table, and the removal succeeds. On return the
  identity is not in the map and nothing is exported under that path; in a consistent
  world no exported object has the identity any more, and the world stays consistent.
\<close>

theorem remove_present:
  assumes "sysfs_to_block w (sysfs_path dev) = Some h"
  shows "let w' = udisks_linux_provider_handle_uevent opath ''remove'' dev w;
             p = object_path (blocks w h) in
           new_calls w w' = [Unexport p, Table_remove (sysfs_path dev) True] \<and>
           sysfs_to_block w' (sysfs_path dev) = None \<and>
           object_manager w' p = None \<and>
           (consistent w \<longrightarrow>
              sysfs_path dev \<notin> map_ids w' \<and> sysfs_path dev \<notin> exported_ids w' \<and> consistent w')"
proof -
  let ?w' = "udisks_linux_provider_handle_uevent opath ''remove'' dev w"
  have t: "sysfs_to_block ?w' (sysfs_path dev) = None"
    by (simp add: handle_remove_present [OF assms])
  have "sysfs_path dev \<notin> map_ids ?w' \<and> sysfs_path dev \<notin> exported_ids ?w' \<and> consistent ?w'"
    if "consistent w"
    using consistent_remove [OF that, of opath dev] t
    by (simp add: consistent_not_exported map_ids_def domIff)
  moreover have "new_calls w ?w' = [Unexport (object_path (blocks w h)), Table_remove (sysfs_path dev) True]"
    "object_manager ?w' (object_path (blocks w h)) = None"
    by (simp_all add: handle_remove_present [OF assms])
  ultimately show ?thesis using t by (simp add: Let_def)
qed

theorem remove_present_witness:
  "sysfs_to_block (deliver sysfs_path [(''add'', dev_sda)] world0) (sysfs_path dev_sda) = Some 0 \<and>
   consistent (deliver sysfs_path [(''add'', dev_sda)] world0) \<and>
   (let w' = udisks_linux_provider_handle_uevent sysfs_path ''remove'' dev_sda
               (deliver sysfs_path [(''add'', dev_sda)] world0);
        p = object_path (blocks (deliver sysfs_path [(''add'', dev_sda)] world0) 0) in
      new_calls (deliver sysfs_path [(''add'', dev_sda)] world0) w' =
        [Unexport p, Table_remove (sysfs_path dev_sda) True] \<and>
      sysfs_to_block w' (sysfs_path dev_sda) = None \<and>
      object_manager w' p = None \<and>
      sysfs_path dev_sda \<notin> map_ids w' \<and> sysfs_path dev_sda \<notin> exported_ids w' \<and> consistent w')"
proof -
  let ?w = "deliver sysfs_path [(''add'', dev_sda)] world0"
  have a: "''add'' \<noteq> ''remove''" by simp
  have b: "sysfs_to_block (g_print Print_entering world0) (sysfs_path dev_sda) = None"
    by (simp add: world0_def g_print_def)
  have p: "sysfs_to_block ?w (sysfs_path dev_sda) = Some 0"
    by (simp add: deliver_def on_uevent_def handle_create [OF a b])
       (simp add: world0_def g_print_def)
  have cf: "collision_free sysfs_path (snd ` set [(''add'', dev_sda)])"
    by (simp add: collision_free_def)
  have e: "consistent world0 \<and> paths_from sysfs_path (snd ` set [(''add'', dev_sda)]) world0"
    by (rule consistent_empty) (simp_all add: world0_def)
  have c: "consistent ?w" using inv_deliver [OF cf _ e] by blast
  from remove_present [OF p, of sysfs_path] p c show ?thesis by (simp add: Let_def)
qed

text \<open>
  C5. A remove for an identity absent from the map changes nothing but the line printed
  on entry: the map and the object manager are as before, no call is made (no unexport,
  no warning), and the handler returns normally.
\<close>

theorem stray_remove_noop:
  assumes "sysfs_to_block w (sysfs_path dev) = None"
  shows "let w' = udisks_linux_provider_handle_uevent opath ''remove'' dev w in
           w' = w\<lparr>printed := printed w @ [Print_uevent ''remove'' (sysfs_path dev)]\<rparr> \<and>
           sysfs_to_block w' = sysfs_to_block w \<and>
           object_manager w' = object_manager w \<and>
           new_calls w w' = []"
  by (simp add: handle_remove_absent [OF assms])

theorem stray_remove_noop_witness:
  "sysfs_to_block world0 (sysfs_path dev_sdb) = None \<and>
   (let w' = udisks_linux_provider_handle_uevent sysfs_path ''remove'' dev_sdb world0 in
      w' = world0\<lparr>printed := printed world0 @ [Print_uevent ''remove'' (sysfs_path dev_sdb)]\<rparr> \<and>
      sysfs_to_block w' = sysfs_to_block world0 \<and>
      object_manager w' = object_manager world0 \<and>
      new_calls world0 w' = [])"
proof -
  have b: "sysfs_to_block world0 (sysfs_path dev_sdb) = None" by (simp add: world0_def)
  from stray_remove_noop [OF b] b show ?thesis by blast
qed

text \<open>
  C6. Construction handles every enumerated device as an add. When the enumerated devices
  have pairwise distinct sysfs paths, the map holds exactly their identities, each with an
  object of its own built from its device; the calls are one construction, one export and
  one insertion per device and nothing else; each object is on the object manager under
  its path when the object paths do not collide; and another order of the same devices
  gives the same identities and the same number of objects.
\<close>

theorem startup_seeding:
  assumes "distinct (map sysfs_path devs)"
  shows "let w' = udisks_linux_provider_constructed opath devs w; n = next_block w in
           map_ids w' = sysfs_path ` set devs \<and>
           new_calls w w' =
             concat (map (\<lambda>(h, d). [Block_new d h, Export (opath d) h, Table_insert (sysfs_path d) h])
                       (enumerate n devs)) \<and>
           length (filter is_block_new (new_calls w w')) = length devs \<and>
           length (filter is_export (new_calls w w')) = length devs \<and>
           (\<forall>i<length devs.
              sysfs_to_block w' (sysfs_path (devs ! i)) = Some (n + i) \<and>
              blocks w' (n + i) = \<lparr>object_path = opath (devs ! i), blk_device = devs ! i\<rparr>) \<and>
           (collision_free opath (set devs) \<longrightarrow>
              (\<forall>i<length devs. object_manager w' (opath (devs ! i)) = Some (n + i))) \<and>
           (\<forall>devs'. mset devs' = mset devs \<longrightarrow>
              map_ids (udisks_linux_provider_constructed opath devs' w) = map_ids w' \<and>
              next_block (udisks_linux_provider_constructed opath devs' w) = next_block w')"
proof -
  let ?w1 = "w\<lparr>gudev_client := Some [''block''], sysfs_to_block := Map.empty\<rparr>"
  have e: "sysfs_to_block ?w1 = Map.empty" by simp
  note r = seed_result [OF e assms, of opath, folded constructed_seed, simplified]
  let ?w' = "udisks_linux_provider_constructed opath devs w"
  have c: "new_calls w ?w' =
      concat (map (\<lambda>(h, d). creation_calls opath h d) (enumerate (next_block w) devs))"
    using r by simp
  have 1: "map_ids ?w' = sysfs_path ` set devs" using r by (simp add: map_ids_def)
  have 2: "new_calls w ?w' =
      concat (map (\<lambda>(h, d). [Block_new d h, Export (opath d) h, Table_insert (sysfs_path d) h])
                (enumerate (next_block w) devs))"
    using c by (simp add: creation_calls_def)
  have 3: "length (filter is_block_new (new_calls w ?w')) = length devs"
    "length (filter is_export (new_calls w ?w')) = length devs"
    unfolding c using creation_counts by blast+
  have 6: "map_ids (udisks_linux_provider_constructed opath devs' w) = map_ids ?w' \<and>
           next_block (udisks_linux_provider_constructed opath devs' w) = next_block ?w'"
    if m: "mset devs' = mset devs" for devs'
  proof -
    have "mset (map sysfs_path devs') = mset (map sysfs_path devs)" using m by simp
    then have d: "distinct (map sysfs_path devs')"
      using assms mset_eq_imp_distinct_iff by blast
    note r' = seed_result [OF e d, of opath, folded constructed_seed, simplified]
    have "set devs' = set devs" using m by (rule mset_eq_setD)
    moreover have "length devs' = length devs" using m by (rule mset_eq_length)
    ultimately show ?thesis using r r' 1 by (simp add: map_ids_def)
  qed
  show ?thesis unfolding Let_def using 1 2 3 6 r by blast
qed

theorem startup_seeding_witness:
  "distinct (map sysfs_path [dev_sda, dev_sdb]) \<and>
   collision_free sysfs_path (set [dev_sda, dev_sdb]) \<and>
   mset [dev_sdb, dev_sda] = mset [dev_sda, dev_sdb] \<and>
   map_ids (udisks_linux_provider_constructed sysfs_path [dev_sda, dev_sdb] world0) =
     sysfs_path ` set [dev_sda, dev_sdb] \<and>
   new_calls world0 (udisks_linux_provider_constructed sysfs_path [dev_sda, dev_sdb] world0) =
     [Block_new dev_sda 0, Export (sysfs_path dev_sda) 0, Table_insert (sysfs_path dev_sda) 0,
      Block_new dev_sdb 1, Export (sysfs_path dev_sdb) 1, Table_insert (sysfs_path dev_sdb) 1] \<and>
   object_manager (udisks_linux_provider_constructed sysfs_path [dev_sda, dev_sdb] world0)
     (sysfs_path dev_sdb) = Some 1 \<and>
   map_ids (udisks_linux_provider_constructed sysfs_path [dev_sdb, dev_sda] world0) =
     map_ids (udisks_linux_provider_constructed sysfs_path [dev_sda, dev_sdb] world0)"
proof -
  have d: "distinct (map sysfs_path [dev_sda, dev_sdb])" by (simp add: dev_sda_def dev_sdb_def)
  have cf: "collision_free sysfs_path (set [dev_sda, dev_sdb])" by (simp add: collision_free_def)
  have m: "mset [dev_sdb, dev_sda] = mset [dev_sda, dev_sdb]" by simp
  have n: "next_block world0 = 0" by (simp add: world0_def)
  note t = startup_seeding [OF d, of sysfs_path world0, unfolded Let_def n]
  have "object_manager (udisks_linux_provider_constructed sysfs_path [dev_sda, dev_sdb] world0)
     (sysfs_path ([dev_sda, dev_sdb] ! 1)) = Some (0 + 1)"
    using t cf by (metis length_Cons list.size(3) lessI One_nat_def)
  moreover have "map_ids (udisks_linux_provider_constructed sysfs_path [dev_sdb, dev_sda] world0) =
     map_ids (udisks_linux_provider_constructed sysfs_path [dev_sda, dev_sdb] world0)"
    using t m by blast
  moreover have "new_calls world0 (udisks_linux_provider_constructed sysfs_path [dev_sda, dev_sdb] world0) =
     [Block_new dev_sda 0, Export (sysfs_path dev_sda) 0, Table_insert (sysfs_path dev_sda) 0,
      Block_new dev_sdb 1, Export (sysfs_path dev_sdb) 1, Table_insert (sysfs_path dev_sdb) 1]"
    using t by (simp add: enumerate_eq_zip upt_rec)
  ultimately show ?thesis using d cf m t by simp
qed

text \<open>
  C7. Every action other than the string \<^verbatim>\<open>remove\<close>, recognised or not, updates the
  object of an identity present in the map and creates, exports and inserts an object for
  an identity absent from it.
\<close>

theorem non_remove_updates_or_creates:
  assumes "action \<noteq> ''remove''"
  shows "let w' = udisks_linux_provider_handle_uevent opath action dev w in
           (case sysfs_to_block w (sysfs_path dev) of
              Some h \<Rightarrow>
                new_calls w w' = [Block_uevent h action dev] \<and>
                blocks w' = (blocks w)(h := (blocks w h)\<lparr>blk_device := dev\<rparr>) \<and>
                sysfs_to_block w' = sysfs_to_block w \<and>
                object_manager w' = object_manager w
            | None \<Rightarrow>
                new_calls w w' =
                  [Block_new dev (next_block w), Export (opath dev) (next_block w),
                   Table_insert (sysfs_path dev) (next_block w)] \<and>
                blocks w' (next_block w) = \<lparr>object_path = opath dev, blk_device = dev\<rparr> \<and>
                sysfs_to_block w' = (sysfs_to_block w)(sysfs_path dev \<mapsto> next_block w) \<and>
                object_manager w' = (object_manager w)(opath dev \<mapsto> next_block w))"
proof (cases "sysfs_to_block w (sysfs_path dev)")
  case None
  then show ?thesis by (simp add: handle_create [OF assms None] creation_calls_def)
next
  case (Some h)
  then show ?thesis by (simp add: handle_update [OF assms Some])
qed

theorem non_remove_updates_or_creates_witness:
  "''bogus'' \<noteq> ''remove'' \<and>
   (let w' = udisks_linux_provider_handle_uevent sysfs_path ''bogus'' dev_sda world0 in
      new_calls world0 w' =
        [Block_new dev_sda 0, Export ''/sys/block/sda'' 0, Table_insert ''/sys/block/sda'' 0] \<and>
      (let w'' = udisks_linux_provider_handle_uevent sysfs_path ''bogus'' dev_sda w' in
         new_calls w' w'' = [Block_uevent 0 ''bogus'' dev_sda]))"
proof -
  let ?w' = "udisks_linux_provider_handle_uevent sysfs_path ''bogus'' dev_sda world0"
  have a: "''bogus'' \<noteq> ''remove''" by simp
  have n: "sysfs_to_block world0 (sysfs_path dev_sda) = None" "next_block world0 = 0"
    by (simp_all add: world0_def)
  have c1: "new_calls world0 ?w' =
        [Block_new dev_sda 0, Export ''/sys/block/sda'' 0, Table_insert ''/sys/block/sda'' 0]"
    and t: "sysfs_to_block ?w' (sysfs_path dev_sda) = Some 0"
    using non_remove_updates_or_creates [OF a, of sysfs_path dev_sda world0]
    by (simp_all add: n Let_def) (simp add: dev_sda_def)
  have "new_calls ?w' (udisks_linux_provider_handle_uevent sysfs_path ''bogus'' dev_sda ?w') =
          [Block_uevent 0 ''bogus'' dev_sda]"
    using non_remove_updates_or_creates [OF a, of sysfs_path dev_sda ?w']
    by (simp add: t Let_def)
  with a c1 show ?thesis by (simp add: Let_def)
qed

text \<open>
  C8. An event other than remove for an identity present in the map leaves the table as
  it is, with the same handle under the identity, leaves the object manager and the
  object path of the object as they are, allocates no object, and makes one call: the
  update of the object.
\<close>

theorem change_keeps_entry:
  assumes "action \<noteq> ''remove''" "sysfs_to_block w (sysfs_path dev) = Some h"
  shows "let w' = udisks_linux_provider_handle_uevent opath action dev w in
           sysfs_to_block w' = sysfs_to_block w \<and>
           sysfs_to_block w' (sysfs_path dev) = Some h \<and>
           object_manager w' = object_manager w \<and>
           object_path (blocks w' h) = object_path (blocks w h) \<and>
           next_block w' = next_block w \<and>
           new_calls w w' = [Block_uevent h action dev] \<and>
           filter is_export (new_calls w w') = [] \<and>
           filter is_block_new (new_calls w w') = []"
  using assms(2) by (simp add: handle_update [OF assms])

theorem change_keeps_entry_witness:
  "''change'' \<noteq> ''remove'' \<and>
   sysfs_to_block (deliver sysfs_path [(''add'', dev_sda)] world0) (sysfs_path dev_sda) = Some 0 \<and>
   (let w' = udisks_linux_provider_handle_uevent sysfs_path ''change'' dev_sda
               (deliver sysfs_path [(''add'', dev_sda)] world0) in
      sysfs_to_block w' = sysfs_to_block (deliver sysfs_path [(''add'', dev_sda)] world0) \<and>
      sysfs_to_block w' (sysfs_path dev_sda) = Some 0 \<and>
      object_manager w' = object_manager (deliver sysfs_path [(''add'', dev_sda)] world0) \<and>
      new_calls (deliver sysfs_path [(''add'', dev_sda)] world0) w' =
        [Block_uevent 0 ''change'' dev_sda])"
proof -
  let ?w = "deliver sysfs_path [(''add'', dev_sda)] world0"
  have a: "''add'' \<noteq> ''remove''" and a': "''change'' \<noteq> ''remove''" by simp_all
  have b: "sysfs_to_block (g_print Print_entering world0) (sysfs_path dev_sda) = None"
    by (simp add: world0_def g_print_def)
  have p: "sysfs_to_block ?w (sysfs_path dev_sda) = Some 0"
    by (simp add: deliver_def on_uevent_def handle_create [OF a b])
       (simp add: world0_def g_print_def)
  from change_keeps_entry [OF a' p, of sysfs_path] a' p show ?thesis by (simp add: Let_def)
qed

text \<open>
  C9. \<^verbatim>\<open>udisks_linux_provider_new\<close> on a pointer that is not a daemon fails its argument
  check and returns no provider, before anything is constructed; on a daemon it returns
  the constructed provider.
\<close>

theorem provider_new_checks_daemon:
  "(\<not> UDISKS_IS_DAEMON daemon \<longrightarrow>
      udisks_linux_provider_new opath devices daemon w =
        Inl (Return_val_if_fail ''UDISKS_IS_DAEMON (daemon)'')) \<and>
   (UDISKS_IS_DAEMON daemon \<longrightarrow>
      udisks_linux_provider_new opath devices daemon w =
        Inr (udisks_linux_provider_constructed opath devices w))"
  by (simp add: udisks_linux_provider_new_def)

theorem provider_new_checks_daemon_witness:
  "(\<not> UDISKS_IS_DAEMON Null \<and>
    udisks_linux_provider_new sysfs_path [dev_sda] Null world0 =
      Inl (Return_val_if_fail ''UDISKS_IS_DAEMON (daemon)'')) \<and>
   (\<not> UDISKS_IS_DAEMON (Instance G_TYPE_OTHER) \<and>
    udisks_linux_provider_new sysfs_path [dev_sda] (Instance G_TYPE_OTHER) world0 =
      Inl (Return_val_if_fail ''UDISKS_IS_DAEMON (daemon)'')) \<and>
   (UDISKS_IS_DAEMON (Instance UDISKS_TYPE_DAEMON) \<and>
    udisks_linux_provider_new sysfs_path [dev_sda] (Instance UDISKS_TYPE_DAEMON) world0 =
      Inr (udisks_linux_provider_constructed sysfs_path [dev_sda] world0))"
proof -
  have a: "\<not> UDISKS_IS_DAEMON Null" and b: "\<not> UDISKS_IS_DAEMON (Instance G_TYPE_OTHER)"
    and c: "UDISKS_IS_DAEMON (Instance UDISKS_TYPE_DAEMON)"
    by (simp_all add: UDISKS_IS_DAEMON_def)
  show ?thesis
    using a b c
      provider_new_checks_daemon [of Null sysfs_path "[dev_sda]" world0]
      provider_new_checks_daemon [of "Instance G_TYPE_OTHER" sysfs_path "[dev_sda]" world0]
      provider_new_checks_daemon [of "Instance UDISKS_TYPE_DAEMON" sysfs_path "[dev_sda]" world0]
    by blast
qed

text \<open>
  C10. When the lookup of the remove path finds the identity, the unexport that follows
  does not touch the table, the removal returns true, and the handler adds no warning to
  the trace.
\<close>

theorem removal_never_fails:
  assumes "g_hash_table_lookup w (sysfs_path dev) = Some h"
  shows "(let w1 = snd (g_dbus_object_manager_unexport (g_dbus_object_get_object_path w h) w) in
            sysfs_to_block w1 = sysfs_to_block w \<and>
            fst (g_hash_table_remove (sysfs_path dev) w1)) \<and>
         (let w' = udisks_linux_provider_handle_uevent opath ''remove'' dev w in
            Table_remove (sysfs_path dev) True \<in> set (new_calls w w') \<and>
            filter is_warning (new_calls w w') = [])"
proof -
  have p: "sysfs_to_block w (sysfs_path dev) = Some h"
    using assms by (simp add: g_hash_table_lookup_def)
  show ?thesis
    using p by (simp add: handle_remove_present [OF p] collab_defs Let_def)
qed

theorem removal_never_fails_witness:
  "g_hash_table_lookup (deliver sysfs_path [(''add'', dev_sda)] world0) (sysfs_path dev_sda) = Some 0 \<and>
   (let w' = udisks_linux_provider_handle_uevent sysfs_path ''remove'' dev_sda
               (deliver sysfs_path [(''add'', dev_sda)] world0) in
      Table_remove (sysfs_path dev_sda) True \<in> set (new_calls (deliver sysfs_path [(''add'', dev_sda)] world0) w') \<and>
      filter is_warning (new_calls (deliver sysfs_path [(''add'', dev_sda)] world0) w') = [])"
proof -
  let ?w = "deliver sysfs_path [(''add'', dev_sda)] world0"
  have a: "''add'' \<noteq> ''remove''" by simp
  have b: "sysfs_to_block (g_print Print_entering world0) (sysfs_path dev_sda) = None"
    by (simp add: world0_def g_print_def)
  have p: "g_hash_table_lookup ?w (sysfs_path dev_sda) = Some 0"
    by (simp add: g_hash_table_lookup_def deliver_def on_uevent_def handle_create [OF a b])
       (simp add: world0_def g_print_def)
  from removal_never_fails [OF p, of sysfs_path] p show ?thesis by (simp add: Let_def)
qed

end
